theory Spec2Isabelle
  imports Complex_Main "HOL-Library.Multiset" "HOL-Library.Sublist"
begin

section \<open>Tables, series and exceptions\<close>

text \<open>
  The program (\<^verbatim>\<open>src/app.py\<close>) works on pandas objects. A cell of the table read by
  \<^verbatim>\<open>pd.read_csv\<close> is a missing value, a boolean, a number or a string. Integer and
  floating-point cells are both \<open>NumV\<close>, with the finite number they denote: the
  program only compares them and converts them to float. \<open>NaN\<close> (also \<open>NaT\<close> and
  \<open>None\<close>) is the one missing value.
\<close>

datatype cell = NaN | BoolV bool | NumV real | StrV string

text \<open>
  Exceptions are values. \<open>ValueError\<close> carries the message of the program's own
  \<^verbatim>\<open>raise ValueError(f"...")\<close> statements; the other constructors are the exceptions
  that pandas, numpy and Python raise underneath the program.
\<close>

datatype error =
    ValueError string
  | KeyError string
  | AttributeError string
  | DateParseError cell
  | FloatCastError string
  | TypeError
  | OverflowError
  | IndexingError
  | IndexError
  | ShapeError
  | UnpackError
  | LibraryError string

text \<open>
  A \<^verbatim>\<open>pd.Series\<close> is a list of values, each with its index label. A
  \<^verbatim>\<open>pd.DataFrame\<close> is its row index and its named columns, in column order. The
  index matters: some pandas operations of the program work by position
  (\<^verbatim>\<open>.iloc\<close>, \<^verbatim>\<open>np.array\<close>) and others by label.
\<close>

type_synonym 'a series = "(nat \<times> 'a) list"

record dataframe =
  df_index :: "nat list"
  df_columns :: "(string \<times> cell list) list"

text \<open>Every column of a data frame has one value per row.\<close>

definition wf_df :: "dataframe \<Rightarrow> bool" where
  "wf_df d = list_all (\<lambda>(c, vs). length vs = length (df_index d)) (df_columns d)"

definition rbind :: "error + 'a \<Rightarrow> ('a \<Rightarrow> error + 'b) \<Rightarrow> error + 'b" where
  "rbind m f = (case m of Inl e \<Rightarrow> Inl e | Inr x \<Rightarrow> f x)"

text \<open>A list comprehension whose body may raise: the first exception ends it.\<close>

fun map_res :: "('a \<Rightarrow> error + 'b) \<Rightarrow> 'a list \<Rightarrow> error + 'b list" where
  "map_res f [] = Inr []"
| "map_res f (x # xs) =
     (case f x of
        Inl e \<Rightarrow> Inl e
      | Inr y \<Rightarrow> (case map_res f xs of Inl e \<Rightarrow> Inl e | Inr ys \<Rightarrow> Inr (y # ys)))"

definition columns :: "dataframe \<Rightarrow> string list" where
  "columns d = map fst (df_columns d)"

definition len_df :: "dataframe \<Rightarrow> nat" where
  "len_df d = length (df_index d)"

text \<open>\<^verbatim>\<open>data[c]\<close>: the column with the table's index, \<^verbatim>\<open>KeyError\<close> when absent.\<close>

definition getitem :: "dataframe \<Rightarrow> string \<Rightarrow> error + cell series" where
  "getitem d c =
     (case map_of (df_columns d) c of
        None \<Rightarrow> Inl (KeyError c)
      | Some vs \<Rightarrow> Inr (zip (df_index d) vs))"

text \<open>\<^verbatim>\<open>data.c\<close>: attribute access to a column, \<^verbatim>\<open>AttributeError\<close> when absent.\<close>

definition getattr :: "dataframe \<Rightarrow> string \<Rightarrow> error + cell series" where
  "getattr d c =
     (case map_of (df_columns d) c of
        None \<Rightarrow> Inl (AttributeError c)
      | Some vs \<Rightarrow> Inr (zip (df_index d) vs))"

text \<open>Selection by a positional boolean mask (\<^verbatim>\<open>xs[np.array(mask)]\<close>).\<close>

definition select :: "bool list \<Rightarrow> 'a list \<Rightarrow> 'a list" where
  "select m xs = map snd (filter fst (zip m xs))"

text \<open>\<^verbatim>\<open>data.iloc[np.array(mask), :]\<close>: the selected rows keep their index labels.\<close>

definition iloc_rows :: "dataframe \<Rightarrow> bool list \<Rightarrow> dataframe" where
  "iloc_rows d m =
     \<lparr>df_index = select m (df_index d),
      df_columns = map (\<lambda>(c, vs). (c, select m vs)) (df_columns d)\<rparr>"

text \<open>
  \<^verbatim>\<open>s.iloc[np.array(mask)]\<close> on a series, \<^verbatim>\<open>IndexError\<close> when the mask has another
  length than the series.
\<close>

definition iloc_get :: "'a series \<Rightarrow> bool list \<Rightarrow> error + 'a series" where
  "iloc_get s m = (if length m \<noteq> length s then Inl IndexError else Inr (select m s))"

text \<open>
  \<^verbatim>\<open>s.iloc[np.array(mask)] = values\<close>: the values go, in order, to the positions where
  the mask is true. The assignment is positional: the index of \<open>values\<close> is ignored.
\<close>

fun put_masked :: "'a list \<Rightarrow> bool list \<Rightarrow> 'a list \<Rightarrow> 'a list" where
  "put_masked (x # xs) (True # m) (v # vs) = v # put_masked xs m vs"
| "put_masked (x # xs) (False # m) vs = x # put_masked xs m vs"
| "put_masked xs m vs = xs"

definition iloc_set :: "'a series \<Rightarrow> bool list \<Rightarrow> 'a series \<Rightarrow> error + 'a series" where
  "iloc_set s m vs =
     (if length m \<noteq> length s then Inl IndexError
      else if length vs \<noteq> length (filter id m) then Inl ShapeError
      else Inr (zip (map fst s) (put_masked (map snd s) m (map snd vs))))"

section \<open>Event classifier: \<^verbatim>\<open>get_exit_status\<close>\<close>

text \<open>
  \<^verbatim>\<open>column == False\<close> and \<^verbatim>\<open>column == True\<close>, cell by cell, with Python's equality:
  a boolean equals itself, the numbers 0 and 1 equal \<^verbatim>\<open>False\<close> and \<^verbatim>\<open>True\<close>, and a
  missing value or a string equals neither.
\<close>

fun eq_bool :: "cell \<Rightarrow> bool \<Rightarrow> bool" where
  "eq_bool (BoolV x) b = (x = b)"
| "eq_bool (NumV r) b = (r = (if b then 1 else 0))"
| "eq_bool NaN b = False"
| "eq_bool (StrV s) b = False"

definition type_error :: "string \<Rightarrow> error" where
  "type_error ty = ValueError (''Type '' @ ty @ '' not in ['progress','vital']'')"

definition get_exit_status :: "dataframe \<Rightarrow> string \<Rightarrow> error + bool series" where
  "get_exit_status data ty =
     (if ty \<notin> set [''progress'', ''vital''] then Inl (type_error ty)
      else if ty = ''vital'' then
        rbind (getitem data ''vital_status'') (\<lambda>s. Inr (map (\<lambda>(i, c). (i, eq_bool c False)) s))
      else
        rbind (getitem data ''progression_status'') (\<lambda>s. Inr (map (\<lambda>(i, c). (i, eq_bool c True)) s)))"

section \<open>Duration resolver\<close>

text \<open>
  \<^verbatim>\<open>pd.to_datetime\<close> is pandas' own conversion of a whole column and is a parameter
  \<open>pdt\<close> of the model: from the values of the column it gives the exception that pandas
  raises, or whether the result is timezone-aware and, for each value, its timestamp in
  nanoseconds since the epoch or \<^verbatim>\<open>NaT\<close>. It is given the whole column because pandas
  chooses one format for the column. A column of which pandas cannot make a datetime
  column counts as an exception. The result has one timestamp per value, and a missing
  value becomes \<^verbatim>\<open>NaT\<close>.
\<close>

type_synonym datetime_parser = "cell list \<Rightarrow> error + bool \<times> int option list"

definition nat_where_missing :: "cell list \<Rightarrow> int option list \<Rightarrow> int option list" where
  "nat_where_missing cs ts = map (\<lambda>(c, t). if c = NaN then None else t) (zip cs ts)"

definition to_datetime ::
  "datetime_parser \<Rightarrow> cell series \<Rightarrow> error + bool \<times> int option series" where
  "to_datetime pdt s =
     (case pdt (map snd s) of
        Inl e \<Rightarrow> Inl e
      | Inr (tz, ts) \<Rightarrow>
          if length ts \<noteq> length s then Inl ShapeError
          else Inr (tz, zip (map fst s) (nat_where_missing (map snd s) ts)))"

definition ns_per_day :: int where
  "ns_per_day = 86400 * 1000000000"

text \<open>
  \<^verbatim>\<open>(census_date - diag_date).dt.days\<close>. Subtracting a timezone-aware column and a
  naive one raises \<^verbatim>\<open>TypeError\<close>; a difference that does not fit the 64-bit
  nanoseconds of a timedelta raises \<^verbatim>\<open>OverflowError\<close>. Otherwise the result is, row by
  row, the whole days of the difference (rounded down), missing where either timestamp
  is \<^verbatim>\<open>NaT\<close>. Both series come from the same table, so they have the same index.
\<close>

definition fits_int64 :: "int \<Rightarrow> bool" where
  "fits_int64 v = (- (2 ^ 63) < v \<and> v < 2 ^ 63)"

fun overflows :: "int option \<Rightarrow> int option \<Rightarrow> bool" where
  "overflows (Some c) (Some d) = (\<not> fits_int64 (c - d))"
| "overflows c d = False"

fun days_between :: "int option \<Rightarrow> int option \<Rightarrow> int option" where
  "days_between (Some c) (Some d) = Some ((c - d) div ns_per_day)"
| "days_between c d = None"

definition sub_days ::
  "bool \<times> int option series \<Rightarrow> bool \<times> int option series \<Rightarrow> error + int option series" where
  "sub_days census diag =
     (if fst census \<noteq> fst diag then Inl TypeError
      else map_res (\<lambda>((i, c), (j, d)).
             if overflows c d then Inl OverflowError else Inr (i, days_between c d))
             (zip (snd census) (snd diag)))"

definition notna :: "'a option series \<Rightarrow> bool series" where
  "notna s = map (\<lambda>(i, v). (i, v \<noteq> None)) s"

definition date_column_error :: "string \<Rightarrow> error" where
  "date_column_error c = ValueError (''Column '' @ c @
     '' not in ['vital_status_change_date','progression_status_change_date']'')"

definition day_column_error :: "string \<Rightarrow> error" where
  "day_column_error c = ValueError (''Column '' @ c @
     '' not in ['vital_status_change_day','progression_status_change_day']'')"

definition missing_column_error :: "string \<Rightarrow> error" where
  "missing_column_error c = ValueError (''Column '' @ c @ '' not in data'')"

definition get_survival_days_from_dates ::
  "datetime_parser \<Rightarrow> dataframe \<Rightarrow> string \<Rightarrow> error + (int option series \<times> bool series)" where
  "get_survival_days_from_dates pdt data census_date_column =
     (if census_date_column \<notin> set [''vital_status_change_date'', ''progression_status_change_date'']
      then Inl (date_column_error census_date_column)
      else if census_date_column \<notin> set (columns data)
      then Inl (missing_column_error census_date_column)
      else
        rbind (getitem data ''diagnosis_date'') (\<lambda>dd.
        rbind (to_datetime pdt dd) (\<lambda>diag_date.
        rbind (getitem data census_date_column) (\<lambda>cd.
        rbind (to_datetime pdt cd) (\<lambda>census_date.
        rbind (sub_days census_date diag_date) (\<lambda>survival_days.
          Inr (survival_days, notna survival_days)))))))"

text \<open>
  Floats. The type \<open>'f\<close> stands for the values of a 64-bit float other than
  \<^verbatim>\<open>nan\<close>, which is the missing value; the model does not fix how they are
  represented. Two conversions are parameters: \<open>rnd\<close> gives the float nearest to a
  number (the conversion of an integer, a boolean or a float to float), and \<open>pfl\<close> is
  Python's \<^verbatim>\<open>float(s)\<close> on a string: nothing when it raises, and otherwise
  \<^verbatim>\<open>nan\<close> or a float, which may be infinite.

  \<^verbatim>\<open>astype(float)\<close> converts a column value by value and raises at the first string
  that \<^verbatim>\<open>float\<close> refuses.
\<close>

definition astype_float ::
  "(real \<Rightarrow> 'f) \<Rightarrow> (string \<Rightarrow> 'f option option) \<Rightarrow> cell series \<Rightarrow> error + 'f option series" where
  "astype_float rnd pfl s =
     map_res (\<lambda>(i, c).
        case c of
          NaN \<Rightarrow> Inr (i, None)
        | BoolV b \<Rightarrow> Inr (i, Some (rnd (if b then 1 else 0)))
        | NumV r \<Rightarrow> Inr (i, Some (rnd r))
        | StrV t \<Rightarrow> (case pfl t of None \<Rightarrow> Inl (FloatCastError t) | Some v \<Rightarrow> Inr (i, v))) s"

text \<open>
  The column read at line 58 of the source is \<^verbatim>\<open>"vital_status_change_day"\<close>, whatever
  \<open>census_day_column\<close> is; the parameter is only checked.
\<close>

definition get_survival_days_from_days ::
  "(real \<Rightarrow> 'f) \<Rightarrow> (string \<Rightarrow> 'f option option) \<Rightarrow> dataframe \<Rightarrow> string \<Rightarrow>
   error + ('f option series \<times> bool series)" where
  "get_survival_days_from_days rnd pfl data census_day_column =
     (if census_day_column \<notin> set [''vital_status_change_day'', ''progression_status_change_day'']
      then Inl (day_column_error census_day_column)
      else if census_day_column \<notin> set (columns data)
      then Inl (missing_column_error census_day_column)
      else
        rbind (getitem data ''vital_status_change_day'') (\<lambda>sd.
        rbind (astype_float rnd pfl sd) (\<lambda>survival_days.
          Inr (survival_days, notna survival_days))))"

definition get_survival_columns :: "string \<Rightarrow> error + (string \<times> string)" where
  "get_survival_columns ty =
     (if ty \<notin> set [''progress'', ''vital''] then Inl (type_error ty)
      else if ty = ''progress''
      then Inr (''progression_status_change_date'', ''progression_status_change_day'')
      else Inr (''vital_status_change_date'', ''vital_status_change_day''))"

text \<open>
  \<^verbatim>\<open>get_survival_days\<close>: the result series is created with the index
  \<^verbatim>\<open>range(len(data))\<close> and all values missing, then filled by position, first from the
  date tier where it succeeded (the day counts become floats), then from the day tier
  where it did not. The day tier is evaluated on the whole table, after the first
  assignment.
\<close>

definition get_survival_days ::
  "datetime_parser \<Rightarrow> (real \<Rightarrow> 'f) \<Rightarrow> (string \<Rightarrow> 'f option option) \<Rightarrow> dataframe \<Rightarrow> string \<Rightarrow>
   error + 'f option series" where
  "get_survival_days pdt rnd pfl data ty =
     rbind (get_survival_columns ty) (\<lambda>(date_col, day_col).
       let survival_days = map (\<lambda>i. (i, None)) [0 ..< len_df data] in
       rbind (get_survival_days_from_dates pdt data date_col) (\<lambda>(s1, success).
       rbind (iloc_get s1 (map snd success)) (\<lambda>v1.
       rbind (iloc_set survival_days (map snd success)
                (map (\<lambda>(i, v). (i, map_option (\<lambda>k. rnd (real_of_int k)) v)) v1)) (\<lambda>survival_days.
       rbind (get_survival_days_from_days rnd pfl data day_col) (\<lambda>(s2, success2).
       rbind (iloc_get s2 (map (\<lambda>(i, b). \<not> b) success)) (\<lambda>v2.
         iloc_set survival_days (map (\<lambda>(i, b). \<not> b) success) v2))))))"

section \<open>Grouper\<close>

text \<open>
  \<^verbatim>\<open>get_labels\<close>: the \<^verbatim>\<open>label\<close> column, or a fresh series of the string \<^verbatim>\<open>"0"\<close>
  for every row when the table has no such column.
\<close>

definition get_labels :: "dataframe \<Rightarrow> cell series" where
  "get_labels data =
     (case map_of (df_columns data) ''label'' of
        None \<Rightarrow> map (\<lambda>i. (i, StrV ''0'')) [0 ..< len_df data]
      | Some vs \<Rightarrow> zip (df_index data) vs)"

text \<open>
  \<^verbatim>\<open>label.unique()\<close>: the distinct values in order of first appearance; pandas keeps
  one entry for the missing value when there is one.
\<close>

fun unique :: "cell list \<Rightarrow> cell list" where
  "unique [] = []"
| "unique (x # xs) = x # unique (filter (\<lambda>y. y \<noteq> x) xs)"

text \<open>\<^verbatim>\<open>label == l\<close>, cell by cell: a missing value equals nothing, not even itself.\<close>

definition cell_eq :: "cell \<Rightarrow> cell \<Rightarrow> bool" where
  "cell_eq a b = (a \<noteq> NaN \<and> b \<noteq> NaN \<and> a = b)"

definition get_subsets :: "dataframe \<Rightarrow> cell series \<Rightarrow> dataframe list \<times> cell list" where
  "get_subsets data label =
     (map (\<lambda>l. iloc_rows data (map (\<lambda>(i, c). cell_eq c l) label)) (unique (map snd label)),
      unique (map snd label))"

section \<open>Survival estimator and censoring extractor\<close>

text \<open>
  \<^verbatim>\<open>kaplan_meier_estimator\<close> of scikit-survival is a parameter \<open>km\<close>: from the event
  indicators and the durations, by position, it gives the rows
  (time, survival_prob, conf_int_lower, conf_int_upper) of the curve, or raises.
\<close>

type_synonym curve = "(real \<times> real \<times> real \<times> real) list"

type_synonym 'f estimator = "bool list \<Rightarrow> 'f option list \<Rightarrow> error + curve"

definition estimate_survival_function ::
  "'f estimator \<Rightarrow> 'f option series \<Rightarrow> bool series \<Rightarrow> error + curve" where
  "estimate_survival_function km survival exit_status =
     km (map snd exit_status) (map snd survival)"

text \<open>
  \<^verbatim>\<open>ids[censored]\<close>: indexing by a boolean series goes by label; pandas raises when a
  label of \<open>ids\<close> is not in the mask's index.
\<close>

definition getitem_mask :: "'a series \<Rightarrow> bool series \<Rightarrow> error + 'a series" where
  "getitem_mask s m =
     rbind (map_res (\<lambda>(i, v). case map_of m i of None \<Rightarrow> Inl IndexingError
                                | Some b \<Rightarrow> Inr (b, (i, v))) s)
       (\<lambda>r. Inr (map snd (filter fst r)))"

text \<open>
  \<^verbatim>\<open>pd.DataFrame({"sample_id": a, "days_at_censoring": b})\<close> from two series aligns them
  by index label: when the two indexes are equal the rows are theirs; otherwise the rows
  are the sorted union of the labels, and a column is missing at the labels its series
  does not have. A row is (index label, sample_id, days_at_censoring).
\<close>

type_synonym 'f censored_df = "(nat \<times> cell \<times> 'f option) list"

definition frame_of_series :: "cell series \<Rightarrow> 'f option series \<Rightarrow> 'f censored_df" where
  "frame_of_series a b =
     (let ix = (if map fst a = map fst b then map fst a
                else sort (remdups (map fst a @ map fst b)))
      in map (\<lambda>i. (i,
                   (case map_of a i of None \<Rightarrow> NaN | Some c \<Rightarrow> c),
                   (case map_of b i of None \<Rightarrow> None | Some v \<Rightarrow> v))) ix)"

definition get_censored_df ::
  "'f option series \<Rightarrow> bool series \<Rightarrow> cell series \<Rightarrow> error + 'f censored_df" where
  "get_censored_df survival_days exit_status ids =
     (let censored = map (\<lambda>(i, b). (i, b = False)) exit_status in
      rbind (getitem_mask ids censored) (\<lambda>sample_id.
      rbind (iloc_get survival_days (map snd censored)) (\<lambda>days_at_censoring.
        Inr (frame_of_series sample_id days_at_censoring))))"

definition get_survival_function_and_censored_dfs ::
  "'f estimator \<Rightarrow> 'f option series \<Rightarrow> bool series \<Rightarrow> cell series \<Rightarrow>
   error + (curve \<times> 'f censored_df)" where
  "get_survival_function_and_censored_dfs km survival_days exit_status ids =
     rbind (estimate_survival_function km survival_days exit_status) (\<lambda>output.
     rbind (get_censored_df survival_days exit_status ids) (\<lambda>output_censored.
       Inr (output, output_censored)))"

section \<open>Group comparison and the orchestrator\<close>

text \<open>
  \<^verbatim>\<open>compare_survival\<close> of scikit-survival is a parameter \<open>cmp\<close>: it receives the
  structured array of (status, time) and the group indicator, both read by position, and
  gives (chi2, p) or raises. Filling the structured array raises when the two series have
  different lengths.
\<close>

type_synonym 'f comparator = "(bool \<times> 'f option) list \<Rightarrow> cell list \<Rightarrow> error + (real \<times> real)"

definition logrank_test ::
  "'f comparator \<Rightarrow> 'f option series \<Rightarrow> bool series \<Rightarrow> cell series \<Rightarrow> error + (real \<times> real)" where
  "logrank_test cmp survival_days exit_status label =
     (if length exit_status \<noteq> length survival_days then Inl ShapeError
      else cmp (zip (map snd exit_status) (map snd survival_days)) (map snd label))"

text \<open>
  What a run does to the outside, in order: the two files written for each group, the call
  of the logrank test with the three series it is handed, and the comparison file.
\<close>

datatype 'f event =
    WriteResult cell curve
  | WriteCensored cell "'f censored_df"
  | CallLogrank "'f option series" "bool series" "cell series"
  | WriteLogrank real real

text \<open>
  \<^verbatim>\<open>main\<close>, from the table that \<^verbatim>\<open>load_data\<close> returned: the events of the run and the
  exception that ended it, if any. Unpacking \<^verbatim>\<open>zip(*[])\<close> into two names raises when
  there is no group. Writing a file is taken to succeed.
\<close>

definition main ::
  "datetime_parser \<Rightarrow> (real \<Rightarrow> 'f) \<Rightarrow> (string \<Rightarrow> 'f option option) \<Rightarrow>
   'f estimator \<Rightarrow> 'f comparator \<Rightarrow> dataframe \<Rightarrow> string \<Rightarrow> 'f event list \<times> error option" where
  "main pdt rnd pfl km cmp data ty =
     (let label = get_labels data;
          (subsets, unique_labels) = get_subsets data label
      in case map_res (\<lambda>subset. get_survival_days pdt rnd pfl subset ty) subsets of
           Inl e \<Rightarrow> ([], Some e)
         | Inr survival_days \<Rightarrow>
       (case map_res (\<lambda>subset. get_exit_status subset ty) subsets of
           Inl e \<Rightarrow> ([], Some e)
         | Inr exit_status \<Rightarrow>
       (case map_res (\<lambda>(s, e, d). rbind (getattr d ''sample_id'')
                        (get_survival_function_and_censored_dfs km s e))
               (zip survival_days (zip exit_status subsets)) of
           Inl e \<Rightarrow> ([], Some e)
         | Inr results \<Rightarrow>
             if results = [] then ([], Some UnpackError)
             else
               let written = concat (map (\<lambda>(l, s, c). [WriteResult l s, WriteCensored l c])
                                       (zip unique_labels results))
               in if length unique_labels > 1 then
                    (let call = CallLogrank (concat survival_days) (concat exit_status) label
                     in case logrank_test cmp (concat survival_days) (concat exit_status) label of
                          Inl e \<Rightarrow> (written @ [call], Some e)
                        | Inr (chi2, p) \<Rightarrow> (written @ [call, WriteLogrank chi2 p], None))
                  else (written, None))))"

section \<open>An instance of the library, for running the model\<close>

text \<open>
  The theorems below hold for every conversion, estimator and comparator. To run the
  model on a table, the conversions are instantiated for the values of the examples. A
  column of calendar dates \<^verbatim>\<open>YYYY-MM-DD\<close> and missing values is read in that one
  format, each date as midnight of that day, without timezone; the instance raises at the
  first value that is anything else. The floats of the examples are small whole numbers,
  which a 64-bit float holds exactly, so they are the numbers themselves; the strings
  that the instance converts are the unsigned decimal integers.
\<close>

definition digit_of :: "char \<Rightarrow> nat option" where
  "digit_of c =
     (let n = (of_char c :: nat) in if 48 \<le> n \<and> n \<le> 57 then Some (n - 48) else None)"

fun digits_val :: "nat \<Rightarrow> string \<Rightarrow> nat option" where
  "digits_val acc [] = Some acc"
| "digits_val acc (c # cs) =
     (case digit_of c of None \<Rightarrow> None | Some k \<Rightarrow> digits_val (10 * acc + k) cs)"

definition nat_of_digits :: "string \<Rightarrow> nat option" where
  "nat_of_digits s = (if s = [] then None else digits_val 0 s)"

definition exact_float :: "real \<Rightarrow> real" where
  "exact_float r = r"

definition decimal_float :: "string \<Rightarrow> real option option" where
  "decimal_float s = map_option (\<lambda>n. Some (real n)) (nat_of_digits s)"

definition leap_year :: "int \<Rightarrow> bool" where
  "leap_year y = (if y mod 100 = 0 then y mod 400 = 0 else y mod 4 = 0)"

definition days_in_month :: "int \<Rightarrow> int \<Rightarrow> int" where
  "days_in_month y m =
     (if m = 2 then (if leap_year y then 29 else 28)
      else if m \<in> set [4, 6, 9, 11] then 30 else 31)"

text \<open>Days from 1970-01-01 to a date of the proleptic Gregorian calendar.\<close>

definition days_from_civil :: "int \<Rightarrow> int \<Rightarrow> int \<Rightarrow> int" where
  "days_from_civil y m d =
     (let y1 = (if m \<le> 2 then y - 1 else y);
          era = y1 div 400;
          yoe = y1 - era * 400;
          doy = (153 * (if m > 2 then m - 3 else m + 9) + 2) div 5 + d - 1;
          doe = yoe * 365 + yoe div 4 - yoe div 100 + doy
      in era * 146097 + doe - 719468)"

definition iso_date :: "cell \<Rightarrow> int option" where
  "iso_date c =
     (case c of
        StrV s \<Rightarrow>
          (if length s = 10 \<and> s ! 4 = CHR ''-'' \<and> s ! 7 = CHR ''-'' then
             (case (nat_of_digits (take 4 s), nat_of_digits (take 2 (drop 5 s)),
                    nat_of_digits (drop 8 s)) of
                (Some y, Some m, Some d) \<Rightarrow>
                  (if 1 \<le> m \<and> m \<le> 12 \<and> 1 \<le> d \<and> int d \<le> days_in_month (int y) (int m)
                   then Some (days_from_civil (int y) (int m) (int d) * ns_per_day)
                   else None)
              | _ \<Rightarrow> None)
           else None)
      | _ \<Rightarrow> None)"

definition iso_to_datetime :: datetime_parser where
  "iso_to_datetime cs =
     (case map_res (\<lambda>c. if c = NaN then Inr None
                       else (case iso_date c of
                               None \<Rightarrow> Inl (DateParseError c)
                             | Some t \<Rightarrow> Inr (Some t))) cs of
        Inl e \<Rightarrow> Inl e
      | Inr ts \<Rightarrow> Inr (False, ts))"

text \<open>
  The statistics are not computed by the program. Where a whole run is evaluated, the
  estimator and the comparator are stand-ins that return an empty curve and the pair
  (0, 1): the control flow of a run does not depend on the numbers they return.
\<close>

definition stub_estimator :: "'f estimator" where
  "stub_estimator status time_exit = Inr []"

definition stub_comparator :: "'f comparator" where
  "stub_comparator y g = Inr (0, 1)"


section \<open>Example tables\<close>

text \<open>
  Three subjects in two groups whose rows interleave. The first has both dates, the other
  two have no follow-up date and a day count; the last has no vital status.
\<close>

definition cohort :: dataframe where
  "cohort =
     \<lparr>df_index = [0, 1, 2],
      df_columns =
        [(''sample_id'', [StrV ''s1'', StrV ''s2'', StrV ''s3'']),
         (''label'', [StrV ''A'', StrV ''B'', StrV ''A'']),
         (''diagnosis_date'', [StrV ''2020-01-01'', StrV ''2020-01-01'', StrV ''2020-01-01'']),
         (''vital_status_change_date'', [StrV ''2020-01-11'', NaN, NaN]),
         (''vital_status_change_day'', [NaN, NumV 42, NumV 30]),
         (''vital_status'', [BoolV False, BoolV True, NaN]),
         (''progression_status'', [BoolV True, NaN, BoolV False])]\<rparr>"

text \<open>
  One subject without a progression date, whose progression day count (5) differs from
  its vital-status day count (9); the table has no label column.
\<close>

definition progress_by_day :: dataframe where
  "progress_by_day =
     \<lparr>df_index = [0],
      df_columns =
        [(''sample_id'', [StrV ''s1'']),
         (''diagnosis_date'', [StrV ''2020-01-01'']),
         (''progression_status_change_date'', [NaN]),
         (''progression_status_change_day'', [NumV 5]),
         (''vital_status_change_day'', [NumV 9]),
         (''progression_status'', [BoolV True])]\<rparr>"

text \<open>One subject with both dates, in a table that has no day-count column.\<close>

definition dated_only :: dataframe where
  "dated_only =
     \<lparr>df_index = [0],
      df_columns =
        [(''sample_id'', [StrV ''s1'']),
         (''diagnosis_date'', [StrV ''2020-01-01'']),
         (''vital_status_change_date'', [StrV ''2020-01-11'']),
         (''vital_status'', [BoolV False])]\<rparr>"

text \<open>The same, with a follow-up date that is not a date.\<close>

definition undated :: dataframe where
  "undated =
     \<lparr>df_index = [0],
      df_columns =
        [(''sample_id'', [StrV ''s1'']),
         (''diagnosis_date'', [StrV ''2020-01-01'']),
         (''vital_status_change_date'', [StrV ''unknown'']),
         (''vital_status'', [BoolV False])]\<rparr>"

text \<open>A table with its header and no row.\<close>

definition no_rows :: dataframe where
  "no_rows =
     \<lparr>df_index = [],
      df_columns =
        [(''sample_id'', []), (''diagnosis_date'', []), (''vital_status_change_date'', []),
         (''vital_status_change_day'', []), (''vital_status'', [])]\<rparr>"

text \<open>Three subjects, the second with an empty label cell.\<close>

definition unlabelled_row :: dataframe where
  "unlabelled_row =
     \<lparr>df_index = [0, 1, 2],
      df_columns =
        [(''sample_id'', [StrV ''s1'', StrV ''s2'', StrV ''s3'']),
         (''label'', [StrV ''A'', NaN, StrV ''A''])]\<rparr>"

section \<open>Notions used in the statements\<close>

text \<open>
  The float that \<^verbatim>\<open>astype(float)\<close> gives for one cell when it does not raise, and the
  columns on which it does not raise.
\<close>

definition cell_float :: "(real \<Rightarrow> 'f) \<Rightarrow> (string \<Rightarrow> 'f option option) \<Rightarrow> cell \<Rightarrow> 'f option" where
  "cell_float rnd pfl c =
     (case c of
        NaN \<Rightarrow> None
      | BoolV b \<Rightarrow> Some (rnd (if b then 1 else 0))
      | NumV r \<Rightarrow> Some (rnd r)
      | StrV t \<Rightarrow> (case pfl t of None \<Rightarrow> None | Some v \<Rightarrow> v))"

definition floats_cast :: "(string \<Rightarrow> 'f option option) \<Rightarrow> cell list \<Rightarrow> bool" where
  "floats_cast pfl cs = list_all (\<lambda>c. case c of StrV t \<Rightarrow> pfl t \<noteq> None | _ \<Rightarrow> True) cs"

text \<open>
  From the follow-up column \<open>cs\<close> with its timestamps \<open>tc\<close> and the diagnosis column
  \<open>dg\<close> with its timestamps \<open>tg\<close>: the whole days between the two dates, row by row,
  and that no difference overflows.
\<close>

definition day_counts ::
  "cell list \<Rightarrow> int option list \<Rightarrow> cell list \<Rightarrow> int option list \<Rightarrow> int option list" where
  "day_counts cs tc dg tg =
     map (\<lambda>(c, g). days_between c g) (zip (nat_where_missing cs tc) (nat_where_missing dg tg))"

definition differences_fit ::
  "cell list \<Rightarrow> int option list \<Rightarrow> cell list \<Rightarrow> int option list \<Rightarrow> bool" where
  "differences_fit cs tc dg tg =
     list_all (\<lambda>(c, g). \<not> overflows c g)
       (zip (nat_where_missing cs tc) (nat_where_missing dg tg))"

text \<open>
  The duration of one subject from its day count of the date tier and its cell of the
  column that the day tier reads.
\<close>

definition resolved_duration ::
  "(real \<Rightarrow> 'f) \<Rightarrow> (string \<Rightarrow> 'f option option) \<Rightarrow> int option \<times> cell \<Rightarrow> 'f option" where
  "resolved_duration rnd pfl = (\<lambda>(k, vd).
     case k of
       Some n \<Rightarrow> Some (rnd (real_of_int n))
     | None \<Rightarrow> cell_float rnd pfl vd)"

section \<open>Event classifier: properties\<close>

lemma getitem_Some:
  "map_of (df_columns d) c = Some vs \<Longrightarrow> getitem d c = Inr (zip (df_index d) vs)"
  by (simp add: getitem_def)

lemma eq_bool_False_iff: "eq_bool c False \<longleftrightarrow> c = BoolV False \<or> c = NumV 0"
  by (cases c) auto

lemma eq_bool_True_iff: "eq_bool c True \<longleftrightarrow> c = BoolV True \<or> c = NumV 1"
  by (cases c) auto

lemma get_exit_status_vital:
  "map_of (df_columns d) ''vital_status'' = Some vs \<Longrightarrow>
   get_exit_status d ''vital'' = Inr (zip (df_index d) (map (\<lambda>c. eq_bool c False) vs))"
  by (simp add: get_exit_status_def rbind_def getitem_Some zip_map2 case_prod_unfold)

lemma get_exit_status_progress:
  "map_of (df_columns d) ''progression_status'' = Some vs \<Longrightarrow>
   get_exit_status d ''progress'' = Inr (zip (df_index d) (map (\<lambda>c. eq_bool c True) vs))"
  by (simp add: get_exit_status_def rbind_def getitem_Some zip_map2 case_prod_unfold)

text \<open>
  C5. Under \<^verbatim>\<open>vital\<close> the event indicator of a subject is true iff its
  \<^verbatim>\<open>vital_status\<close> equals \<^verbatim>\<open>False\<close> (the boolean, or the number 0, which Python
  takes as equal to it); under \<^verbatim>\<open>progress\<close> it is true iff its
  \<^verbatim>\<open>progression_status\<close> equals \<^verbatim>\<open>True\<close> (the boolean, or the number 1). The
  classifier returns one indicator per subject, under that subject's index label.
\<close>

theorem exit_status_event_iff:
  "(map_of (df_columns d) ''vital_status'' = Some vs \<longrightarrow>
      get_exit_status d ''vital'' =
        Inr (zip (df_index d) (map (\<lambda>c. c = BoolV False \<or> c = NumV 0) vs)))
   \<and> (map_of (df_columns d) ''progression_status'' = Some ps \<longrightarrow>
      get_exit_status d ''progress'' =
        Inr (zip (df_index d) (map (\<lambda>c. c = BoolV True \<or> c = NumV 1) ps)))"
  by (simp add: get_exit_status_vital get_exit_status_progress eq_bool_False_iff
      eq_bool_True_iff)

theorem exit_status_event_iff_witness:
  "map_of (df_columns cohort) ''vital_status'' = Some [BoolV False, BoolV True, NaN]
   \<and> map_of (df_columns cohort) ''progression_status'' = Some [BoolV True, NaN, BoolV False]
   \<and> get_exit_status cohort ''vital'' = Inr [(0, True), (1, False), (2, False)]
   \<and> get_exit_status cohort ''progress'' = Inr [(0, True), (1, False), (2, False)]"
  using exit_status_event_iff [of cohort "[BoolV False, BoolV True, NaN]"
      "[BoolV True, NaN, BoolV False]"]
  by (simp add: cohort_def)

text \<open>
  C10. A subject whose status field is missing is classified as censored, and the
  classifier does not raise: under \<^verbatim>\<open>vital\<close> a missing \<^verbatim>\<open>vital_status\<close> gives the
  indicator false, and under \<^verbatim>\<open>progress\<close> a missing \<^verbatim>\<open>progression_status\<close> does.
\<close>

theorem missing_status_is_censored:
  "(map_of (df_columns d) ''vital_status'' = Some vs \<and> i < length vs
      \<and> i < length (df_index d) \<and> vs ! i = NaN \<longrightarrow>
      (\<exists>es. get_exit_status d ''vital'' = Inr es \<and> i < length es
            \<and> es ! i = (df_index d ! i, False)))
   \<and> (map_of (df_columns d) ''progression_status'' = Some ps \<and> i < length ps
      \<and> i < length (df_index d) \<and> ps ! i = NaN \<longrightarrow>
      (\<exists>es. get_exit_status d ''progress'' = Inr es \<and> i < length es
            \<and> es ! i = (df_index d ! i, False)))"
  by (simp add: get_exit_status_vital get_exit_status_progress)

theorem missing_status_is_censored_witness:
  "map_of (df_columns cohort) ''vital_status'' = Some [BoolV False, BoolV True, NaN]
   \<and> [BoolV False, BoolV True, NaN] ! 2 = NaN
   \<and> (\<exists>es. get_exit_status cohort ''vital'' = Inr es \<and> 2 < length es \<and> es ! 2 = (2, False))"
  using missing_status_is_censored [of cohort "[BoolV False, BoolV True, NaN]" 2]
  by (simp add: cohort_def)

section \<open>Runs of the model on the example tables\<close>

lemma cohort_groups:
  "get_subsets cohort (get_labels cohort) =
     ([iloc_rows cohort [True, False, True], iloc_rows cohort [False, True, False]],
      [StrV ''A'', StrV ''B''])"
  by (simp add: cohort_def get_subsets_def get_labels_def cell_eq_def)

lemma cohort_days:
  "map_res (\<lambda>subset. get_survival_days iso_to_datetime exact_float decimal_float subset ''vital'')
     [iloc_rows cohort [True, False, True], iloc_rows cohort [False, True, False]] =
   Inr [[(0, Some 10), (1, Some 30)], [(0, Some 42)]]"
  by code_simp

lemma cohort_events:
  "map_res (\<lambda>subset. get_exit_status subset ''vital'')
     [iloc_rows cohort [True, False, True], iloc_rows cohort [False, True, False]] =
   Inr [[(0, True), (2, False)], [(1, False)]]"
  by code_simp

lemma cohort_ids:
  "getattr (iloc_rows cohort [True, False, True]) ''sample_id'' =
     Inr [(0, StrV ''s1''), (2, StrV ''s3'')]"
  "getattr (iloc_rows cohort [False, True, False]) ''sample_id'' = Inr [(1, StrV ''s2'')]"
  by code_simp+

lemma cohort_censored:
  "get_censored_df [(0, Some (10 :: real)), (1, Some 30)] [(0, True), (2, False)]
     [(0, StrV ''s1''), (2, StrV ''s3'')] =
   Inr [(1, NaN, Some 30), (2, StrV ''s3'', None)]"
  "get_censored_df [(0, Some (42 :: real))] [(1, False)] [(1, StrV ''s2'')] =
   Inr [(0, NaN, Some 42), (1, StrV ''s2'', None)]"
  by code_simp+

text \<open>
  C1. Under \<^verbatim>\<open>progress\<close> the day-count tier does not read
  \<^verbatim>\<open>progression_status_change_day\<close>: for the subject of \<open>progress_by_day\<close>, whose
  date tier fails, the duration is 9, the value of \<^verbatim>\<open>vital_status_change_day\<close>, and
  not 5.
\<close>

theorem day_tier_reads_vital_column:
  "get_survival_days_from_days exact_float decimal_float progress_by_day ''progression_status_change_day''
     = Inr ([(0, Some 9)], [(0, True)])
   \<and> get_survival_days iso_to_datetime exact_float decimal_float progress_by_day ''progress''
     = Inr [(0, Some 9)]"
  by code_simp

text \<open>
  C2. On \<open>cohort\<close>, whose groups interleave, a run that reaches the logrank test hands
  it the durations and events in group order (s1, s3, s2) and the labels in table order
  (A, B, A): at the second position the duration 30 and the event of row 2 (s3, group A)
  meet the label B of row 1.
\<close>

theorem logrank_labels_in_table_order:
  "fst (main iso_to_datetime exact_float decimal_float km cmp cohort ''vital'') = [] \<or>
   CallLogrank [(0, Some 10), (1, Some 30), (0, Some 42)]
               [(0, True), (2, False), (1, False)]
               [(0, StrV ''A''), (1, StrV ''B''), (2, StrV ''A'')]
     \<in> set (fst (main iso_to_datetime exact_float decimal_float km cmp cohort ''vital''))"
  unfolding main_def cohort_groups Let_def prod.case cohort_days cohort_events
  by (auto simp: rbind_def cohort_ids get_survival_function_and_censored_dfs_def
      get_labels_def cohort_def split: sum.splits)

text \<open>
  C4. For group A of \<open>cohort\<close> (rows 0 and 2 of the table, s3 censored with duration 30)
  the censored table is not the one row (s3, 30): the duration comes under position 1
  and the id under label 2, so the table has two rows, one without id and one without
  duration. A run that writes its per-group files writes this table.
\<close>

theorem censored_rows_misaligned:
  "get_censored_df [(0, Some (10 :: real)), (1, Some 30)] [(0, True), (2, False)]
     [(0, StrV ''s1''), (2, StrV ''s3'')] =
   Inr [(1, NaN, Some 30), (2, StrV ''s3'', None)]
   \<and> (fst (main iso_to_datetime exact_float decimal_float km cmp cohort ''vital'') = [] \<or>
      WriteCensored (StrV ''A'') [(1, NaN, Some 30), (2, StrV ''s3'', None)]
        \<in> set (fst (main iso_to_datetime exact_float decimal_float km cmp cohort ''vital'')))"
proof
  show "get_censored_df [(0, Some (10 :: real)), (1, Some 30)] [(0, True), (2, False)]
     [(0, StrV ''s1''), (2, StrV ''s3'')] =
   Inr [(1, NaN, Some 30), (2, StrV ''s3'', None)]"
    by (rule cohort_censored)
  show "fst (main iso_to_datetime exact_float decimal_float km cmp cohort ''vital'') = [] \<or>
      WriteCensored (StrV ''A'') [(1, NaN, Some 30), (2, StrV ''s3'', None)]
        \<in> set (fst (main iso_to_datetime exact_float decimal_float km cmp cohort ''vital''))"
    unfolding main_def cohort_groups Let_def prod.case cohort_days cohort_events
    by (auto simp: rbind_def cohort_ids cohort_censored [simplified]
        estimate_survival_function_def get_survival_function_and_censored_dfs_def
        split: sum.splits)
qed

text \<open>
  C6. In \<open>unlabelled_row\<close> the second subject has no label. The labels are A and the
  missing value, the subset of A holds rows 0 and 2, the subset of the missing value is
  empty, and row 1 is in no subset.
\<close>

theorem missing_label_in_no_group:
  "get_subsets unlabelled_row (get_labels unlabelled_row) =
     ([\<lparr>df_index = [0, 2],
        df_columns = [(''sample_id'', [StrV ''s1'', StrV ''s3'']),
                      (''label'', [StrV ''A'', StrV ''A''])]\<rparr>,
       \<lparr>df_index = [], df_columns = [(''sample_id'', []), (''label'', [])]\<rparr>],
      [StrV ''A'', NaN])"
  by code_simp

section \<open>Lists, masks and conversions\<close>

lemma select_Nil [simp]: "select [] xs = []" "select m [] = []"
  by (simp_all add: select_def)

lemma select_Cons [simp]:
  "select (b # m) (x # xs) = (if b then x # select m xs else select m xs)"
  by (simp add: select_def)

lemma select_map: "select m (map f xs) = map f (select m xs)"
proof (induction m arbitrary: xs)
  case Nil
  then show ?case by simp
next
  case (Cons b m)
  then show ?case by (cases xs) auto
qed

lemma select_zip:
  "length xs = length ys \<Longrightarrow> select m (zip xs ys) = zip (select m xs) (select m ys)"
proof (induction m arbitrary: xs ys)
  case Nil
  then show ?case by simp
next
  case (Cons b m)
  then show ?case by (cases xs; cases ys) auto
qed

lemma length_select:
  "length xs = length m \<Longrightarrow> length (select m xs) = length (filter id m)"
proof (induction m arbitrary: xs)
  case Nil
  then show ?case by simp
next
  case (Cons b m)
  then show ?case by (cases xs) auto
qed

lemma put_masked_select:
  "length xs = length m \<Longrightarrow> length ys = length m \<Longrightarrow>
   put_masked xs m (select m ys) = map (\<lambda>(x, b, y). if b then y else x) (zip xs (zip m ys))"
proof (induction m arbitrary: xs ys)
  case Nil
  then show ?case by simp
next
  case (Cons b m)
  then obtain x xs' y ys' where "xs = x # xs'" "ys = y # ys'"
    by (cases xs; cases ys) auto
  with Cons show ?case by (cases b) auto
qed

lemma map_res_Inr_D:
  "map_res f xs = Inr ys \<Longrightarrow> x \<in> set xs \<Longrightarrow> \<exists>y. f x = Inr y"
  by (induction xs arbitrary: ys) (auto split: sum.splits)


lemma map_res_map:
  "(\<And>x. x \<in> set xs \<Longrightarrow> f x = Inr (g x)) \<Longrightarrow> map_res f xs = Inr (map g xs)"
  by (induction xs) auto

lemma map_res_Inl_all:
  "xs \<noteq> [] \<Longrightarrow> (\<And>x. x \<in> set xs \<Longrightarrow> f x = Inl e) \<Longrightarrow> map_res f xs = Inl e"
  by (cases xs) auto

lemma wf_col_length:
  "wf_df d \<Longrightarrow> map_of (df_columns d) c = Some vs \<Longrightarrow> length vs = length (df_index d)"
  by (auto simp: wf_df_def list_all_iff dest: map_of_SomeD)

lemma in_columns_iff: "c \<in> set (columns d) \<longleftrightarrow> map_of (df_columns d) c \<noteq> None"
  by (simp add: columns_def map_of_eq_None_iff)

section \<open>Duration resolver: properties\<close>

lemma map_res_Inr_map:
  "map_res f xs = Inr ys \<Longrightarrow> (\<And>x y. x \<in> set xs \<Longrightarrow> f x = Inr y \<Longrightarrow> y = g x) \<Longrightarrow>
   ys = map g xs"
proof (induction xs arbitrary: ys)
  case Nil
  then show ?case by simp
next
  case (Cons x xs)
  then show ?case by (auto split: sum.splits)
qed

lemma length_nat_where_missing [simp]:
  "length (nat_where_missing cs ts) = min (length cs) (length ts)"
  by (simp add: nat_where_missing_def)

lemma to_datetime_eq:
  assumes "pdt cs = Inr (tz, ts)" and "length ts = length cs" and "length ix = length cs"
  shows "to_datetime pdt (zip ix cs) = Inr (tz, zip ix (nat_where_missing cs ts))"
  using assms by (simp add: to_datetime_def)

lemma to_datetime_Inr_D:
  assumes "to_datetime pdt (zip ix cs) = Inr r" and "length ix = length cs"
  shows "\<exists>tz ts. pdt cs = Inr (tz, ts) \<and> length ts = length cs
           \<and> r = (tz, zip ix (nat_where_missing cs ts))"
  using assms by (auto simp: to_datetime_def split: sum.splits prod.splits if_splits)

lemma sub_days_eq:
  assumes "length a = length ix" and "length b = length ix"
    and "list_all (\<lambda>(c, g). \<not> overflows c g) (zip a b)"
  shows "sub_days (tz, zip ix a) (tz, zip ix b)
     = Inr (zip ix (map (\<lambda>(c, g). days_between c g) (zip a b)))"
proof -
  let ?f = "\<lambda>((i :: nat, c), (j :: nat, d)).
      if overflows c d then Inl OverflowError else Inr (i, days_between c d)"
  let ?g = "\<lambda>((i :: nat, c), (j :: nat, d)). (i, days_between c d)"
  have "?f x = Inr (?g x)" if x: "x \<in> set (zip (zip ix a) (zip ix b))" for x
  proof -
    obtain i c j d where xi: "x = ((i, c), (j, d))" by (cases x) auto
    from x xi have "(c, d) \<in> set (zip a b)"
      by (auto simp: in_set_zip)
    with assms(3) have "\<not> overflows c d"
      by (auto simp: list_all_iff)
    then show ?thesis
      by (simp add: xi)
  qed
  then have "map_res ?f (zip (zip ix a) (zip ix b)) = Inr (map ?g (zip (zip ix a) (zip ix b)))"
    by (rule map_res_map)
  moreover have "map ?g (zip (zip ix a) (zip ix b))
      = zip ix (map (\<lambda>(c, g). days_between c g) (zip a b))"
    using assms(1,2) by (intro nth_equalityI) simp_all
  ultimately show ?thesis
    by (simp add: sub_days_def)
qed

lemma sub_days_Inr_D:
  assumes r: "sub_days (tz1, zip ix a) (tz2, zip ix b) = Inr r"
    and la: "length a = length ix" and lb: "length b = length ix"
  shows "tz1 = tz2 \<and> list_all (\<lambda>(c, g). \<not> overflows c g) (zip a b)"
proof -
  from r have tz: "tz1 = tz2"
    by (auto simp: sub_days_def split: if_splits)
  from r tz have m: "map_res (\<lambda>((i, c), (j, d)).
          if overflows c d then Inl OverflowError else Inr (i, days_between c d))
          (zip (zip ix a) (zip ix b)) = Inr r"
    by (simp add: sub_days_def)
  have "\<not> overflows c g" if "(c, g) \<in> set (zip a b)" for c g
  proof -
    from that obtain n where n: "n < length ix" "a ! n = c" "b ! n = g"
      using la lb by (auto simp: in_set_zip)
    then have "((ix ! n, c), (ix ! n, g)) \<in> set (zip (zip ix a) (zip ix b))"
      using la lb by (auto simp: in_set_zip intro!: exI [of _ n])
    from map_res_Inr_D [OF m this] show ?thesis
      by (auto split: if_splits)
  qed
  with tz show ?thesis
    by (auto simp: list_all_iff)
qed

lemma survival_columns_cases:
  "get_survival_columns ty = Inr (date_col, day_col) \<Longrightarrow>
   (ty = ''progress'' \<and> date_col = ''progression_status_change_date''
      \<and> day_col = ''progression_status_change_day'')
   \<or> (ty = ''vital'' \<and> date_col = ''vital_status_change_date''
      \<and> day_col = ''vital_status_change_day'')"
  by (auto simp: get_survival_columns_def split: if_splits)

lemma notna_zip: "notna (zip ix ks) = zip ix (map (\<lambda>k. k \<noteq> None) ks)"
  by (intro nth_equalityI) (simp_all add: notna_def)

lemma from_dates_eq:
  assumes col: "date_col \<in> set [''vital_status_change_date'', ''progression_status_change_date'']"
    and wf: "wf_df d"
    and dg: "map_of (df_columns d) ''diagnosis_date'' = Some dg"
    and cs: "map_of (df_columns d) date_col = Some cs"
    and pg: "pdt dg = Inr (tz, tg)" and pc: "pdt cs = Inr (tz, tc)"
    and ltg: "length tg = length dg" and ltc: "length tc = length cs"
    and fit: "differences_fit cs tc dg tg"
  shows "get_survival_days_from_dates pdt d date_col =
     Inr (zip (df_index d) (day_counts cs tc dg tg),
          zip (df_index d) (map (\<lambda>k. k \<noteq> None) (day_counts cs tc dg tg)))"
proof -
  have ldg: "length dg = length (df_index d)" and lcs: "length cs = length (df_index d)"
    using wf dg cs by (auto dest: wf_col_length)
  have incol: "date_col \<in> set (columns d)"
    using cs by (simp add: in_columns_iff)
  have t1: "to_datetime pdt (zip (df_index d) dg)
      = Inr (tz, zip (df_index d) (nat_where_missing dg tg))"
    using pg ltg ldg by (intro to_datetime_eq) simp_all
  have t2: "to_datetime pdt (zip (df_index d) cs)
      = Inr (tz, zip (df_index d) (nat_where_missing cs tc))"
    using pc ltc lcs by (intro to_datetime_eq) simp_all
  have sub: "sub_days (tz, zip (df_index d) (nat_where_missing cs tc))
                 (tz, zip (df_index d) (nat_where_missing dg tg))
      = Inr (zip (df_index d) (day_counts cs tc dg tg))"
    unfolding day_counts_def
    using fit ldg lcs ltg ltc by (intro sub_days_eq) (simp_all add: differences_fit_def)
  show ?thesis
    using col incol
    by (simp add: get_survival_days_from_dates_def rbind_def getitem_Some [OF dg]
        getitem_Some [OF cs] t1 t2 sub notna_zip del: set_simps)
qed

lemma from_dates_Inr_D:
  assumes r: "get_survival_days_from_dates pdt d c = Inr r" and wf: "wf_df d"
  shows "\<exists>dg cs tz tg tc.
           map_of (df_columns d) ''diagnosis_date'' = Some dg
         \<and> map_of (df_columns d) c = Some cs
         \<and> pdt dg = Inr (tz, tg) \<and> pdt cs = Inr (tz, tc)
         \<and> length tg = length dg \<and> length tc = length cs
         \<and> differences_fit cs tc dg tg"
proof -
  from r obtain dg cs t1 t2 sd where
    dg: "map_of (df_columns d) ''diagnosis_date'' = Some dg"
    and cs: "map_of (df_columns d) c = Some cs"
    and t1: "to_datetime pdt (zip (df_index d) dg) = Inr t1"
    and t2: "to_datetime pdt (zip (df_index d) cs) = Inr t2"
    and sd: "sub_days t2 t1 = Inr sd"
    by (auto simp: get_survival_days_from_dates_def rbind_def getitem_def
        split: if_splits sum.splits option.splits)
  have ldg: "length dg = length (df_index d)" and lcs: "length cs = length (df_index d)"
    using wf dg cs by (auto dest: wf_col_length)
  from to_datetime_Inr_D [OF t1] ldg obtain tzg tg where
    pg: "pdt dg = Inr (tzg, tg)" and ltg: "length tg = length dg"
    and e1: "t1 = (tzg, zip (df_index d) (nat_where_missing dg tg))"
    by auto
  from to_datetime_Inr_D [OF t2] lcs obtain tzc tc where
    pc: "pdt cs = Inr (tzc, tc)" and ltc: "length tc = length cs"
    and e2: "t2 = (tzc, zip (df_index d) (nat_where_missing cs tc))"
    by auto
  from sd e1 e2 have "tzc = tzg \<and> list_all (\<lambda>(c, g). \<not> overflows c g)
      (zip (nat_where_missing cs tc) (nat_where_missing dg tg))"
    using ldg lcs ltg ltc by (intro sub_days_Inr_D [where r = sd]) simp_all
  with dg cs pg pc ltg ltc show ?thesis
    by (auto simp: differences_fit_def)
qed

lemma astype_float_ok:
  assumes fc: "floats_cast pfl (map snd s)"
  shows "astype_float rnd pfl s = Inr (map (\<lambda>(i, c). (i, cell_float rnd pfl c)) s)"
proof -
  let ?f = "\<lambda>(i :: nat, c).
        case c of
          NaN \<Rightarrow> Inr (i, None)
        | BoolV b \<Rightarrow> Inr (i, Some (rnd (if b then 1 else 0)))
        | NumV r \<Rightarrow> Inr (i, Some (rnd r))
        | StrV t \<Rightarrow> (case pfl t of None \<Rightarrow> Inl (FloatCastError t) | Some v \<Rightarrow> Inr (i, v))"
  have "?f x = Inr ((\<lambda>(i, c). (i, cell_float rnd pfl c)) x)" if x: "x \<in> set s" for x
  proof -
    obtain i c where xi: "x = (i, c)" by (cases x)
    from fc x xi have "case c of StrV t \<Rightarrow> pfl t \<noteq> None | _ \<Rightarrow> True"
      by (force simp: floats_cast_def list_all_iff)
    then show ?thesis
      by (cases c) (auto simp: xi cell_float_def)
  qed
  then have "map_res ?f s = Inr (map (\<lambda>(i, c). (i, cell_float rnd pfl c)) s)"
    by (rule map_res_map)
  then show ?thesis
    by (simp add: astype_float_def)
qed

lemma astype_float_Inr:
  assumes "astype_float rnd pfl s = Inr t"
  shows "floats_cast pfl (map snd s)"
proof -
  have "case c of StrV t \<Rightarrow> pfl t \<noteq> None | _ \<Rightarrow> True" if "(i, c) \<in> set s" for i c
    using map_res_Inr_D [OF assms [unfolded astype_float_def] that]
    by (auto split: cell.splits option.splits)
  then show ?thesis
    by (auto simp: floats_cast_def list_all_iff)
qed

lemma from_days_eq:
  assumes col: "day_col \<in> set [''vital_status_change_day'', ''progression_status_change_day'']"
    and incol: "day_col \<in> set (columns d)"
    and wf: "wf_df d"
    and vd: "map_of (df_columns d) ''vital_status_change_day'' = Some vd"
    and fc: "floats_cast pfl vd"
  shows "get_survival_days_from_days rnd pfl d day_col =
     Inr (zip (df_index d) (map (cell_float rnd pfl) vd),
          zip (df_index d) (map (\<lambda>k. k \<noteq> None) (map (cell_float rnd pfl) vd)))"
proof -
  have lvd: "length vd = length (df_index d)"
    using wf vd by (auto dest: wf_col_length)
  have t: "astype_float rnd pfl (zip (df_index d) vd) =
      Inr (map (\<lambda>(i, c). (i, cell_float rnd pfl c)) (zip (df_index d) vd))"
    using fc lvd by (intro astype_float_ok) simp
  have z: "map (\<lambda>(i, c). (i, cell_float rnd pfl c)) (zip (df_index d) vd) =
      zip (df_index d) (map (cell_float rnd pfl) vd)"
    by (intro nth_equalityI) simp_all
  show ?thesis
    using col incol
    by (simp add: get_survival_days_from_days_def rbind_def getitem_Some [OF vd] t z notna_zip
        del: set_simps)
qed

lemma from_days_Inr_D:
  assumes "get_survival_days_from_days rnd pfl d c = Inr r" and wf: "wf_df d"
  shows "\<exists>vd. c \<in> set (columns d)
            \<and> map_of (df_columns d) ''vital_status_change_day'' = Some vd
            \<and> floats_cast pfl vd"
proof -
  from assms(1) obtain vd t where
    c: "c \<in> set (columns d)"
    and vd: "map_of (df_columns d) ''vital_status_change_day'' = Some vd"
    and t: "astype_float rnd pfl (zip (df_index d) vd) = Inr t"
    by (auto simp: get_survival_days_from_days_def rbind_def getitem_def
        split: if_splits sum.splits option.splits)
  have "length vd = length (df_index d)"
    using wf vd by (auto dest: wf_col_length)
  with astype_float_Inr [OF t] c vd show ?thesis
    by simp
qed

text \<open>
  When the date tier succeeds, its values have been assigned when the day tier starts:
  what is left of \<open>get_survival_days\<close> is the day tier and the second assignment.
\<close>

lemma date_tier_step:
  assumes cols: "get_survival_columns ty = Inr (date_col, day_col)"
    and t1: "get_survival_days_from_dates pdt d date_col
      = Inr (zip (df_index d) ks, zip (df_index d) (map (\<lambda>k. k \<noteq> None) ks))"
    and lks: "length ks = length (df_index d)"
  shows "get_survival_days pdt rnd pfl d ty =
     rbind (get_survival_days_from_days rnd pfl d day_col) (\<lambda>(s2, success2).
     rbind (iloc_get s2 (map (\<lambda>k. k = None) ks))
       (iloc_set (zip [0 ..< len_df d] (map (map_option (\<lambda>k. rnd (real_of_int k))) ks))
          (map (\<lambda>k. k = None) ks)))"
proof -
  define n where "n = length (df_index d)"
  define m where "m = map (\<lambda>k. k \<noteq> None) ks"
  define A where "A = map (map_option (\<lambda>k. rnd (real_of_int k))) ks"
  have lks': "length ks = n" and lm: "length m = n" and lA: "length A = n"
    by (simp_all add: m_def A_def lks n_def)
  have t1': "get_survival_days_from_dates pdt d date_col
      = Inr (zip (df_index d) ks, zip (df_index d) m)"
    unfolding m_def by (rule t1)
  have ms: "map snd (zip (df_index d) m) = m"
    by (simp add: lm n_def)
  have mn: "map2 (\<lambda>i. Not) (df_index d) m = map (\<lambda>k. k = None) ks"
    by (intro nth_equalityI) (simp_all add: lm lks' m_def n_def)
  have g1: "iloc_get (zip (df_index d) ks) m = Inr (zip (select m (df_index d)) (select m ks))"
    by (simp add: iloc_get_def lm lks' n_def select_zip)
  have v1: "map (\<lambda>(i, v). (i, map_option (\<lambda>k. rnd (real_of_int k)) v))
        (zip (select m (df_index d)) (select m ks))
      = zip (select m (df_index d)) (select m A)"
    by (intro nth_equalityI) (simp_all add: A_def select_map)
  have lsel: "length (select m (df_index d)) = length (filter id m)"
    "length (select m A) = length (filter id m)"
    by (simp_all add: length_select lm lA n_def)
  have filled: "map (\<lambda>(x, b, y). if b then y else x)
        (zip (map (\<lambda>i. None) [0 ..< n]) (zip m A)) = A"
    by (intro nth_equalityI) (auto simp: lm lA lks' m_def A_def)
  have s1: "iloc_set (map (\<lambda>i. (i, None)) [0 ..< n]) m
        (zip (select m (df_index d)) (select m A)) = Inr (zip [0 ..< n] A)"
  proof -
    have "map snd (zip (select m (df_index d)) (select m A)) = select m A"
      by (simp add: lsel)
    moreover have "put_masked (map (\<lambda>i. None) [0 ..< n]) m (select m A) = A"
      using put_masked_select [of "map (\<lambda>i. None) [0 ..< n]" m A]
      by (simp add: lm lA filled)
    ultimately show ?thesis
      by (simp add: iloc_set_def lm lsel comp_def)
  qed
  show ?thesis
  proof (cases "get_survival_days_from_days rnd pfl d day_col")
    case (Inl e)
    then show ?thesis
      unfolding get_survival_days_def
      by (simp add: cols rbind_def t1' ms g1 v1 len_df_def n_def [symmetric] s1)
  next
    case (Inr r)
    then show ?thesis
      unfolding get_survival_days_def
      by (cases r)
         (simp add: cols rbind_def t1' ms mn g1 v1 len_df_def
            n_def [symmetric] s1 A_def [symmetric] cong: sum.case_cong)
  qed
qed

lemma get_survival_days_eq:
  assumes cols: "get_survival_columns ty = Inr (date_col, day_col)"
    and wf: "wf_df d"
    and t1: "get_survival_days_from_dates pdt d date_col
      = Inr (zip (df_index d) ks, zip (df_index d) (map (\<lambda>k. k \<noteq> None) ks))"
    and lks: "length ks = length (df_index d)"
    and incol: "day_col \<in> set (columns d)"
    and vd: "map_of (df_columns d) ''vital_status_change_day'' = Some vd"
    and fc: "floats_cast pfl vd"
  shows "get_survival_days pdt rnd pfl d ty =
     Inr (zip [0 ..< len_df d] (map (resolved_duration rnd pfl) (zip ks vd)))"
proof -
  define n where "n = length (df_index d)"
  define m where "m = map (\<lambda>k. k = None) ks"
  define fs where "fs = map (cell_float rnd pfl) vd"
  define A where "A = map (map_option (\<lambda>k. rnd (real_of_int k))) ks"
  have lvd: "length vd = n"
    using wf vd by (auto simp: n_def dest: wf_col_length)
  have lks': "length ks = n" and lm: "length m = n" and lfs: "length fs = n"
    and lA: "length A = n"
    by (simp_all add: m_def fs_def A_def lks lvd n_def)
  have c2: "day_col \<in> set [''vital_status_change_day'', ''progression_status_change_day'']"
    using survival_columns_cases [OF cols] by auto
  have t2: "get_survival_days_from_days rnd pfl d day_col =
      Inr (zip (df_index d) fs, zip (df_index d) (map (\<lambda>k. k \<noteq> None) fs))"
    unfolding fs_def by (rule from_days_eq [OF c2 incol wf vd fc])
  have g2: "iloc_get (zip (df_index d) fs) m =
      Inr (zip (select m (df_index d)) (select m fs))"
    by (simp add: iloc_get_def lm lfs n_def select_zip)
  have lsel2: "length (select m (df_index d)) = length (filter id m)"
    "length (select m fs) = length (filter id m)"
    by (simp_all add: length_select lm lfs n_def)
  have s2: "iloc_set (zip [0 ..< n] A) m (zip (select m (df_index d)) (select m fs))
      = Inr (zip [0 ..< n] (map (\<lambda>(x, b, y). if b then y else x) (zip A (zip m fs))))"
  proof -
    have "map snd (zip (select m (df_index d)) (select m fs)) = select m fs"
      by (simp add: lsel2)
    moreover have "put_masked A m (select m fs)
        = map (\<lambda>(x, b, y). if b then y else x) (zip A (zip m fs))"
      by (rule put_masked_select) (simp_all add: lm lA lfs)
    ultimately show ?thesis
      by (simp add: iloc_set_def lm lA lsel2)
  qed
  have fin: "map (\<lambda>(x, b, y). if b then y else x) (zip A (zip m fs))
      = map (resolved_duration rnd pfl) (zip ks vd)"
    by (intro nth_equalityI)
       (auto simp: lm lA lfs lvd lks' m_def A_def fs_def resolved_duration_def
          split: option.splits)
  show ?thesis
    unfolding date_tier_step [OF cols t1 lks]
    by (simp add: rbind_def t2 g2 s2 fin len_df_def n_def [symmetric]
        m_def [symmetric] A_def [symmetric])
qed

lemma length_day_counts:
  "length (day_counts cs tc dg tg) = min (min (length cs) (length tc)) (min (length dg) (length tg))"
  by (simp add: day_counts_def)

text \<open>
  When the table lacks the day column of the type, the exception is the date tier's if
  that one raises, and the missing-column error otherwise.
\<close>

lemma get_survival_days_day_missing:
  assumes cols: "get_survival_columns ty = Inr (date_col, day_col)"
    and wf: "wf_df d"
    and nocol: "day_col \<notin> set (columns d)"
  shows "get_survival_days pdt rnd pfl d ty =
     Inl (case get_survival_days_from_dates pdt d date_col of
            Inl e \<Rightarrow> e
          | Inr r \<Rightarrow> missing_column_error day_col)"
proof (cases "get_survival_days_from_dates pdt d date_col")
  case (Inl e)
  then show ?thesis
    by (simp add: get_survival_days_def cols rbind_def)
next
  case (Inr r)
  from from_dates_Inr_D [OF Inr wf] obtain dg cs tz tg tc where
    dg: "map_of (df_columns d) ''diagnosis_date'' = Some dg"
    and cs: "map_of (df_columns d) date_col = Some cs"
    and p: "pdt dg = Inr (tz, tg)" "pdt cs = Inr (tz, tc)"
    and l: "length tg = length dg" "length tc = length cs"
    and fit: "differences_fit cs tc dg tg"
    by blast
  have c1: "date_col \<in> set [''vital_status_change_date'', ''progression_status_change_date'']"
    and c2: "day_col \<in> set [''vital_status_change_day'', ''progression_status_change_day'']"
    using survival_columns_cases [OF cols] by auto
  have ll: "length dg = length (df_index d)" "length cs = length (df_index d)"
    using wf dg cs by (auto dest: wf_col_length)
  note t1 = from_dates_eq [OF c1 wf dg cs p l fit]
  have lks: "length (day_counts cs tc dg tg) = length (df_index d)"
    by (simp add: length_day_counts l ll)
  have "get_survival_days_from_days rnd pfl d day_col = Inl (missing_column_error day_col)"
    using c2 nocol by (simp add: get_survival_days_from_days_def del: set_simps)
  then show ?thesis
    unfolding date_tier_step [OF cols t1 lks]
    by (simp add: rbind_def Inr)
qed

text \<open>
  C3, amended. Take a group subset that has the columns the resolver reads (the
  diagnosis date, the follow-up date and the day column of the analysis type, and
  \<^verbatim>\<open>vital_status_change_day\<close>), whose two date columns convert to timestamps of the
  same kind without a difference overflowing, and whose \<^verbatim>\<open>vital_status_change_day\<close>
  converts to float. Then duration resolution returns one duration per subject, and for
  subject \<open>i\<close>: if both dates are present and converted, the duration is their
  difference in whole days, as a float, whatever the day-count value is; under
  \<^verbatim>\<open>vital\<close>, if a date is missing or did not convert and the day-count value is a
  number, the duration is that number as a float (42 gives 42.0).
\<close>

theorem duration_resolution:
  assumes wf: "wf_df d"
    and cols: "get_survival_columns ty = Inr (date_col, day_col)"
    and dg: "map_of (df_columns d) ''diagnosis_date'' = Some dg"
    and cs: "map_of (df_columns d) date_col = Some cs"
    and incol: "day_col \<in> set (columns d)"
    and vd: "map_of (df_columns d) ''vital_status_change_day'' = Some vd"
    and pg: "pdt dg = Inr (tz, tg)" and pc: "pdt cs = Inr (tz, tc)"
    and ltg: "length tg = length dg" and ltc: "length tc = length cs"
    and fit: "differences_fit cs tc dg tg"
    and fc: "floats_cast pfl vd"
    and i: "i < len_df d"
  shows "\<exists>sd. get_survival_days pdt rnd pfl d ty = Inr sd
          \<and> length sd = len_df d \<and> fst (sd ! i) = i
          \<and> (dg ! i \<noteq> NaN \<and> cs ! i \<noteq> NaN \<and> tg ! i = Some a \<and> tc ! i = Some b
              \<longrightarrow> snd (sd ! i) = Some (rnd (real_of_int ((b - a) div ns_per_day))))
          \<and> (ty = ''vital''
              \<and> (dg ! i = NaN \<or> cs ! i = NaN \<or> tg ! i = None \<or> tc ! i = None)
              \<and> (vd ! i = NumV r \<and> v = rnd r \<or> (\<exists>t. vd ! i = StrV t \<and> pfl t = Some (Some v)))
              \<longrightarrow> snd (sd ! i) = Some v)"
proof -
  let ?ks = "day_counts cs tc dg tg"
  let ?sd = "zip [0 ..< len_df d] (map (resolved_duration rnd pfl) (zip ?ks vd))"
  have c1: "date_col \<in> set [''vital_status_change_date'', ''progression_status_change_date'']"
    using survival_columns_cases [OF cols] by auto
  have l: "length dg = len_df d" "length cs = len_df d" "length vd = len_df d"
    using wf dg cs vd by (auto simp: len_df_def dest: wf_col_length)
  have lks: "length ?ks = length (df_index d)"
    using l ltg ltc by (simp add: length_day_counts len_df_def)
  note t1 = from_dates_eq [OF c1 wf dg cs pg pc ltg ltc fit]
  have eq: "get_survival_days pdt rnd pfl d ty = Inr ?sd"
    by (rule get_survival_days_eq [OF cols wf t1 lks incol vd fc])
  have k: "?ks ! i = days_between (if cs ! i = NaN then None else tc ! i)
                                  (if dg ! i = NaN then None else tg ! i)"
    using i l ltg ltc by (simp add: day_counts_def nat_where_missing_def)
  define sd where "sd = ?sd"
  have n: "snd (sd ! i) = resolved_duration rnd pfl (?ks ! i, vd ! i)"
    using i l lks by (simp add: len_df_def sd_def)
  have dated: "snd (sd ! i) = Some (rnd (real_of_int ((b - a) div ns_per_day)))"
    if "dg ! i \<noteq> NaN \<and> cs ! i \<noteq> NaN \<and> tg ! i = Some a \<and> tc ! i = Some b"
    using that unfolding n k by (simp add: resolved_duration_def)
  have "?ks ! i = None"
    if "dg ! i = NaN \<or> cs ! i = NaN \<or> tg ! i = None \<or> tc ! i = None"
    using that unfolding k by (cases "tc ! i"; cases "tg ! i") auto
  then have undated: "snd (sd ! i) = Some v"
    if "ty = ''vital''
        \<and> (dg ! i = NaN \<or> cs ! i = NaN \<or> tg ! i = None \<or> tc ! i = None)
        \<and> (vd ! i = NumV r \<and> v = rnd r \<or> (\<exists>t. vd ! i = StrV t \<and> pfl t = Some (Some v)))"
    using that unfolding n by (auto simp: resolved_duration_def cell_float_def)
  have shape: "length sd = len_df d" "fst (sd ! i) = i"
    using i l lks by (simp_all add: len_df_def sd_def)
  show ?thesis
  proof (intro exI [of _ sd] conjI impI)
    show "get_survival_days pdt rnd pfl d ty = Inr sd"
      unfolding sd_def by (rule eq)
    show "length sd = len_df d" and "fst (sd ! i) = i"
      by (rule shape)+
    show "snd (sd ! i) = Some (rnd (real_of_int ((b - a) div ns_per_day)))"
      if "dg ! i \<noteq> NaN \<and> cs ! i \<noteq> NaN \<and> tg ! i = Some a \<and> tc ! i = Some b"
      using that by (rule dated)
    show "snd (sd ! i) = Some v"
      if "ty = ''vital''
        \<and> (dg ! i = NaN \<or> cs ! i = NaN \<or> tg ! i = None \<or> tc ! i = None)
        \<and> (vd ! i = NumV r \<and> v = rnd r \<or> (\<exists>t. vd ! i = StrV t \<and> pfl t = Some (Some v)))"
      using that by (rule undated)
  qed
qed

text \<open>
  C3 as stated fails: the subject of \<open>dated_only\<close> has both dates, ten days apart, and
  no duration is resolved, because the day-count tier is evaluated on the whole table and
  the table has no day column.
\<close>

theorem day_tier_runs_for_dated_subject:
  "get_survival_days_from_dates iso_to_datetime dated_only ''vital_status_change_date''
     = Inr ([(0, Some 10)], [(0, True)])
   \<and> get_survival_days iso_to_datetime exact_float decimal_float dated_only ''vital''
     = Inl (ValueError ''Column vital_status_change_day not in data'')"
  by code_simp

theorem duration_resolution_witness:
  "wf_df cohort
   \<and> map_of (df_columns cohort) ''diagnosis_date''
       = Some [StrV ''2020-01-01'', StrV ''2020-01-01'', StrV ''2020-01-01'']
   \<and> map_of (df_columns cohort) ''vital_status_change_date''
       = Some [StrV ''2020-01-11'', NaN, NaN]
   \<and> map_of (df_columns cohort) ''vital_status_change_day'' = Some [NaN, NumV 42, NumV 30]
   \<and> (\<exists>sv. get_survival_days iso_to_datetime exact_float decimal_float cohort ''vital'' = Inr sv
          \<and> length sv = 3 \<and> sv ! 0 = (0, Some 10) \<and> sv ! 1 = (1, Some 42))"
proof -
  let ?dg = "[StrV ''2020-01-01'', StrV ''2020-01-01'', StrV ''2020-01-01'']"
  let ?vc = "[StrV ''2020-01-11'', NaN, NaN]"
  let ?vd = "[NaN, NumV 42, NumV 30]"
  let ?tg = "[Some 1577836800000000000, Some 1577836800000000000, Some 1577836800000000000]"
  let ?tc = "[Some 1578700800000000000, None, None]"
  have wf: "wf_df cohort"
    by code_simp
  have cols: "get_survival_columns ''vital''
      = Inr (''vital_status_change_date'', ''vital_status_change_day'')"
    by (simp add: get_survival_columns_def)
  have dg: "map_of (df_columns cohort) ''diagnosis_date'' = Some ?dg"
    and vc: "map_of (df_columns cohort) ''vital_status_change_date'' = Some ?vc"
    and vd: "map_of (df_columns cohort) ''vital_status_change_day'' = Some ?vd"
    by (simp_all add: cohort_def)
  have incol: "''vital_status_change_day'' \<in> set (columns cohort)"
    by code_simp
  have pg: "iso_to_datetime ?dg = Inr (False, ?tg)"
    and pc: "iso_to_datetime ?vc = Inr (False, ?tc)"
    by code_simp+
  have ltg: "length ?tg = length ?dg" and ltc: "length ?tc = length ?vc"
    by simp_all
  have fit: "differences_fit ?vc ?tc ?dg ?tg"
    by code_simp
  have fc: "floats_cast decimal_float ?vd"
    by code_simp
  have i0: "0 < len_df cohort" and i1: "1 < len_df cohort" and n: "len_df cohort = 3"
    by (simp_all add: len_df_def cohort_def)
  note T = duration_resolution [OF wf cols dg vc incol vd pg pc ltg ltc fit fc,
      where rnd = exact_float]
  from T [OF i1, of 0 0 42 42]
  obtain sv where sv: "get_survival_days iso_to_datetime exact_float decimal_float cohort
      ''vital'' = Inr sv"
    and len: "length sv = 3" and s1: "sv ! 1 = (1, Some 42)"
    by (auto simp: exact_float_def n prod_eq_iff)
  from T [OF i0, of 1577836800000000000 1578700800000000000 0 0] sv
  have s0: "sv ! 0 = (0, Some 10)"
    by (simp add: ns_per_day_def exact_float_def prod_eq_iff)
  from wf dg vc vd sv len s0 s1 show ?thesis
    by blast
qed

section \<open>The orchestrator: properties\<close>

lemma unique_nonempty: "xs \<noteq> [] \<Longrightarrow> unique xs \<noteq> []"
  by (cases xs) auto

lemma get_labels_length: "wf_df d \<Longrightarrow> length (get_labels d) = length (df_index d)"
  by (auto simp: get_labels_def len_df_def split: option.splits dest: wf_col_length)

lemma subsets_nonempty:
  assumes "wf_df d" and "df_index d \<noteq> []"
  shows "fst (get_subsets d (get_labels d)) \<noteq> []"
proof -
  have "get_labels d \<noteq> []"
    using get_labels_length [OF assms(1)] assms(2) by auto
  then show ?thesis
    by (simp add: get_subsets_def unique_nonempty)
qed

lemma columns_iloc_rows: "columns (iloc_rows d m) = columns d"
  by (simp add: columns_def iloc_rows_def comp_def case_prod_unfold)

lemma length_select_eq:
  "length xs = length ys \<Longrightarrow> length (select m xs) = length (select m ys)"
proof (induction m arbitrary: xs ys)
  case Nil
  then show ?case by simp
next
  case (Cons b m)
  then show ?case by (cases xs; cases ys) auto
qed

lemma wf_iloc_rows: "wf_df d \<Longrightarrow> wf_df (iloc_rows d m)"
  by (auto simp: wf_df_def iloc_rows_def list_all_iff intro: length_select_eq)

lemma subsets_columns:
  "s \<in> set (fst (get_subsets d l)) \<Longrightarrow> columns s = columns d"
  by (auto simp: get_subsets_def columns_iloc_rows)

lemma subsets_wf:
  "wf_df d \<Longrightarrow> s \<in> set (fst (get_subsets d l)) \<Longrightarrow> wf_df s"
  by (auto simp: get_subsets_def wf_iloc_rows)

lemma map_res_hd_Inl:
  "xs \<noteq> [] \<Longrightarrow> f (hd xs) = Inl e \<Longrightarrow> map_res f xs = Inl e"
  by (cases xs) auto

lemma main_durations_raise:
  "map_res (\<lambda>subset. get_survival_days pdt rnd pfl subset ty) (fst (get_subsets d (get_labels d)))
     = Inl e \<Longrightarrow>
   main pdt rnd pfl km cmp d ty = ([], Some e)"
  by (simp add: main_def Let_def case_prod_unfold)

lemma get_survival_days_bad_type:
  "ty \<notin> set [''progress'', ''vital''] \<Longrightarrow> get_survival_days pdt rnd pfl s ty = Inl (type_error ty)"
  by (simp add: get_survival_days_def get_survival_columns_def rbind_def del: set_simps)

lemma get_exit_status_bad_type:
  "ty \<notin> set [''progress'', ''vital''] \<Longrightarrow> get_exit_status s ty = Inl (type_error ty)"
  by (simp add: get_exit_status_def del: set_simps)

lemma get_survival_days_date_missing:
  assumes cols: "get_survival_columns ty = Inr (date_col, day_col)"
    and nocol: "date_col \<notin> set (columns s)"
  shows "get_survival_days pdt rnd pfl s ty = Inl (missing_column_error date_col)"
proof -
  have "date_col \<in> set [''vital_status_change_date'', ''progression_status_change_date'']"
    using survival_columns_cases [OF cols] by auto
  then have "get_survival_days_from_dates pdt s date_col = Inl (missing_column_error date_col)"
    using nocol by (simp add: get_survival_days_from_dates_def del: set_simps)
  then show ?thesis
    by (simp add: get_survival_days_def cols rbind_def)
qed

text \<open>
  C7, amended. For a run on a table with at least one row: when the analysis type is
  outside vital and progress, the run raises the \<^verbatim>\<open>ValueError\<close> that names the type
  and writes nothing, and no table gets a duration or an event value; when the table
  lacks the follow-up date column of the type, the run raises the \<^verbatim>\<open>ValueError\<close>
  that names the column and writes nothing, and no table without that column gets a
  duration; when the table lacks the day column of the
  type, the run writes nothing and raises after the date tier of the first group has
  run: the exception is the date tier's if that one raises, and otherwise the
  \<^verbatim>\<open>ValueError\<close> that names the day column.
\<close>

theorem configuration_errors:
  assumes wf: "wf_df d" and rows: "df_index d \<noteq> []"
  shows "(ty \<notin> set [''progress'', ''vital''] \<longrightarrow>
            main pdt rnd pfl km cmp d ty
              = ([], Some (ValueError (''Type '' @ ty @ '' not in ['progress','vital']'')))
          \<and> get_survival_days pdt rnd pfl s ty = Inl (type_error ty)
          \<and> get_exit_status s ty = Inl (type_error ty))
       \<and> (get_survival_columns ty = Inr (date_col, day_col) \<and> date_col \<notin> set (columns d) \<longrightarrow>
            main pdt rnd pfl km cmp d ty
              = ([], Some (ValueError (''Column '' @ date_col @ '' not in data''))))
       \<and> (get_survival_columns ty = Inr (date_col, day_col) \<and> date_col \<notin> set (columns s) \<longrightarrow>
            get_survival_days pdt rnd pfl s ty = Inl (missing_column_error date_col))
       \<and> (get_survival_columns ty = Inr (date_col, day_col) \<and> day_col \<notin> set (columns d) \<longrightarrow>
            main pdt rnd pfl km cmp d ty
              = ([], Some (case get_survival_days_from_dates pdt
                                  (hd (fst (get_subsets d (get_labels d)))) date_col of
                             Inl e \<Rightarrow> e
                           | Inr r \<Rightarrow> ValueError (''Column '' @ day_col @ '' not in data''))))"
proof (intro conjI impI)
  let ?subsets = "fst (get_subsets d (get_labels d))"
  have ne: "?subsets \<noteq> []"
    by (rule subsets_nonempty [OF wf rows])
  then have hd_in: "hd ?subsets \<in> set ?subsets"
    by simp
  {
    assume bad: "ty \<notin> set [''progress'', ''vital'']"
    have "map_res (\<lambda>subset. get_survival_days pdt rnd pfl subset ty) ?subsets = Inl (type_error ty)"
      using ne by (intro map_res_hd_Inl get_survival_days_bad_type [OF bad])
    then show "main pdt rnd pfl km cmp d ty
        = ([], Some (ValueError (''Type '' @ ty @ '' not in ['progress','vital']'')))"
      by (simp add: main_durations_raise type_error_def)
    show "get_survival_days pdt rnd pfl s ty = Inl (type_error ty)"
      by (rule get_survival_days_bad_type [OF bad])
    show "get_exit_status s ty = Inl (type_error ty)"
      by (rule get_exit_status_bad_type [OF bad])
  }
  {
    assume h: "get_survival_columns ty = Inr (date_col, day_col) \<and> date_col \<notin> set (columns d)"
    then have "date_col \<notin> set (columns (hd ?subsets))"
      using subsets_columns [OF hd_in] by simp
    with h have "get_survival_days pdt rnd pfl (hd ?subsets) ty = Inl (missing_column_error date_col)"
      by (intro get_survival_days_date_missing) auto
    then have "map_res (\<lambda>subset. get_survival_days pdt rnd pfl subset ty) ?subsets
        = Inl (missing_column_error date_col)"
      using ne by (intro map_res_hd_Inl)
    then show "main pdt rnd pfl km cmp d ty
        = ([], Some (ValueError (''Column '' @ date_col @ '' not in data'')))"
      by (simp add: main_durations_raise missing_column_error_def)
  }
  {
    assume h: "get_survival_columns ty = Inr (date_col, day_col) \<and> date_col \<notin> set (columns s)"
    then show "get_survival_days pdt rnd pfl s ty = Inl (missing_column_error date_col)"
      by (intro get_survival_days_date_missing) auto
  }
  {
    assume h: "get_survival_columns ty = Inr (date_col, day_col) \<and> day_col \<notin> set (columns d)"
    then have nocol: "day_col \<notin> set (columns (hd ?subsets))"
      using subsets_columns [OF hd_in] by simp
    have wfs: "wf_df (hd ?subsets)"
      by (rule subsets_wf [OF wf hd_in])
    from h have cols: "get_survival_columns ty = Inr (date_col, day_col)"
      by simp
    have "map_res (\<lambda>subset. get_survival_days pdt rnd pfl subset ty) ?subsets
        = Inl (case get_survival_days_from_dates pdt (hd ?subsets) date_col of
                 Inl e \<Rightarrow> e
               | Inr r \<Rightarrow> missing_column_error day_col)"
      using ne by (intro map_res_hd_Inl get_survival_days_day_missing [OF cols wfs nocol])
    then show "main pdt rnd pfl km cmp d ty
              = ([], Some (case get_survival_days_from_dates pdt (hd ?subsets) date_col of
                             Inl e \<Rightarrow> e
                           | Inr r \<Rightarrow> ValueError (''Column '' @ day_col @ '' not in data'')))"
      by (simp add: main_durations_raise missing_column_error_def cong: sum.case_cong)
  }
qed

text \<open>
  C7 as stated fails. On a table without rows a run with the type \<^verbatim>\<open>survival\<close> ends
  with the unpacking error of line 242, which names nothing. On \<open>undated\<close>, which lacks
  the day column, the run ends with the parse error of a follow-up date: the rows of
  the date tier are processed before the day column is looked for.
\<close>

theorem configuration_error_not_first:
  "main iso_to_datetime exact_float decimal_float stub_estimator stub_comparator no_rows ''survival''
     = ([], Some UnpackError)
   \<and> ''vital_status_change_day'' \<notin> set (columns undated)
   \<and> main iso_to_datetime exact_float decimal_float stub_estimator stub_comparator undated ''vital''
     = ([], Some (DateParseError (StrV ''unknown'')))"
  by code_simp


theorem configuration_errors_witness:
  "wf_df dated_only \<and> df_index dated_only \<noteq> []
   \<and> ''survival'' \<notin> set [''progress'', ''vital'']
   \<and> main iso_to_datetime exact_float decimal_float stub_estimator stub_comparator dated_only ''survival''
       = ([], Some (ValueError ''Type survival not in ['progress','vital']''))
   \<and> ''progression_status_change_date'' \<notin> set (columns dated_only)
   \<and> main iso_to_datetime exact_float decimal_float stub_estimator stub_comparator dated_only ''progress''
       = ([], Some (ValueError ''Column progression_status_change_date not in data''))
   \<and> get_survival_days iso_to_datetime exact_float decimal_float dated_only ''progress''
       = Inl (ValueError ''Column progression_status_change_date not in data'')
   \<and> ''vital_status_change_day'' \<notin> set (columns dated_only)
   \<and> main iso_to_datetime exact_float decimal_float stub_estimator stub_comparator dated_only ''vital''
       = ([], Some (ValueError ''Column vital_status_change_day not in data''))"
proof -
  have wf: "wf_df dated_only" and rows: "df_index dated_only \<noteq> []"
    by code_simp+
  have bad: "''survival'' \<notin> set [''progress'', ''vital'']"
    by simp
  have pcols: "get_survival_columns ''progress''
      = Inr (''progression_status_change_date'', ''progression_status_change_day'')"
    and vcols: "get_survival_columns ''vital''
      = Inr (''vital_status_change_date'', ''vital_status_change_day'')"
    by (simp_all add: get_survival_columns_def)
  have no_date: "''progression_status_change_date'' \<notin> set (columns dated_only)"
    and no_day: "''vital_status_change_day'' \<notin> set (columns dated_only)"
    by code_simp+
  have dates: "get_survival_days_from_dates iso_to_datetime
      (hd (fst (get_subsets dated_only (get_labels dated_only)))) ''vital_status_change_date''
      = Inr ([(0, Some 10)], [(0, True)])"
    by code_simp
  note T = configuration_errors [OF wf rows, where pdt = iso_to_datetime
      and rnd = exact_float and pfl = decimal_float and km = stub_estimator and cmp = stub_comparator]
  have r1: "main iso_to_datetime exact_float decimal_float stub_estimator stub_comparator dated_only
      ''survival'' = ([], Some (ValueError ''Type survival not in ['progress','vital']''))"
    using T [THEN conjunct1, rule_format, OF bad] by simp
  have r2: "main iso_to_datetime exact_float decimal_float stub_estimator stub_comparator dated_only
      ''progress'' = ([], Some (ValueError ''Column progression_status_change_date not in data''))"
    using T [THEN conjunct2, THEN conjunct1, rule_format, OF conjI, OF pcols no_date] by simp
  have r2': "get_survival_days iso_to_datetime exact_float decimal_float dated_only ''progress''
      = Inl (ValueError ''Column progression_status_change_date not in data'')"
    using T [THEN conjunct2, THEN conjunct2, THEN conjunct1, rule_format, OF conjI,
        OF pcols no_date]
    by (simp add: missing_column_error_def)
  have r3: "main iso_to_datetime exact_float decimal_float stub_estimator stub_comparator dated_only
      ''vital'' = ([], Some (ValueError ''Column vital_status_change_day not in data''))"
    using T [THEN conjunct2, THEN conjunct2, THEN conjunct2, rule_format, OF conjI,
        OF vcols no_day]
    by (simp add: dates)
  from wf rows bad r1 no_date r2 r2' no_day r3 show ?thesis
    by (intro conjI)
qed








section \<open>Grouper: properties\<close>

lemma set_unique [simp]: "set (unique xs) = set xs"
  by (induction xs rule: unique.induct) auto

lemma distinct_unique [simp]: "distinct (unique xs)"
  by (induction xs rule: unique.induct) auto

lemma unique_first_occurrence: "unique xs = rev (remdups (rev xs))"
proof (induction xs rule: unique.induct)
  case 1
  then show ?case by simp
next
  case (2 x xs)
  have "rev (remdups (rev xs @ [x])) = x # rev (remdups (rev (filter (\<lambda>y. y \<noteq> x) xs)))" for xs :: "cell list"
  proof (induction xs rule: rev_induct)
    case Nil
    then show ?case by simp
  next
    case (snoc y ys)
    then show ?case
      by (auto simp: remdups_append2)
  qed
  with 2 show ?case by simp
qed

lemma mset_select_disjoint:
  "length ks = length xs \<Longrightarrow> (\<And>k. \<not> (P k \<and> Q k)) \<Longrightarrow>
   mset (select (map P ks) xs) + mset (select (map Q ks) xs)
     = mset (select (map (\<lambda>k. P k \<or> Q k) ks) xs)"
  by (induction ks xs rule: list_induct2) auto

lemma mset_select_partition:
  "length ks = length xs \<Longrightarrow> distinct U \<Longrightarrow>
   mset (concat (map (\<lambda>l. select (map (\<lambda>c. c = l) ks) xs) U))
     = mset (select (map (\<lambda>c. c \<in> set U) ks) xs)"
proof (induction U)
  case Nil
  have "select (map (\<lambda>c. False) ks) xs = []" if "length ks = length xs" for ks :: "'a list" and xs :: "'b list"
    using that by (induction ks xs rule: list_induct2) auto
  with Nil show ?case by simp
next
  case (Cons l U)
  have "mset (select (map (\<lambda>c. c = l) ks) xs) + mset (select (map (\<lambda>c. c \<in> set U) ks) xs)
      = mset (select (map (\<lambda>c. c = l \<or> c \<in> set U) ks) xs)"
    using Cons.prems by (intro mset_select_disjoint) auto
  with Cons show ?case by simp
qed

lemma select_all: "length ks = length xs \<Longrightarrow> (\<And>k. k \<in> set ks \<Longrightarrow> P k) \<Longrightarrow> select (map P ks) xs = xs"
  by (induction ks xs rule: list_induct2) auto

lemma subseq_select: "subseq (select m xs) xs"
proof (induction m arbitrary: xs)
  case Nil
  then show ?case by simp
next
  case (Cons b m)
  then show ?case by (cases xs) auto
qed

lemma labels_mask:
  "NaN \<notin> snd ` set label \<Longrightarrow>
   map (\<lambda>(i, c). cell_eq c l) label = map (\<lambda>c. c = l) (map snd label)"
  by (force simp: cell_eq_def)

text \<open>
  When no label is missing, grouping partitions the rows: the index labels of the subsets
  together are those of the table, each subset keeps the table's row order, and the
  labels come in order of first occurrence.
\<close>

lemma grouping_partitions:
  assumes wf: "wf_df d" and present: "NaN \<notin> snd ` set (get_labels d)"
  shows "mset (concat (map df_index (fst (get_subsets d (get_labels d))))) = mset (df_index d)"
    and "\<forall>s \<in> set (fst (get_subsets d (get_labels d))). subseq (df_index s) (df_index d)"
    and "snd (get_subsets d (get_labels d)) = rev (remdups (rev (map snd (get_labels d))))"
proof -
  let ?ks = "map snd (get_labels d)"
  have len: "length ?ks = length (df_index d)"
    using get_labels_length [OF wf] by simp
  have mask: "map (\<lambda>(i, c). cell_eq c l) (get_labels d) = map (\<lambda>c. c = l) ?ks"
    for l
    using present by (rule labels_mask)
  have "map df_index (fst (get_subsets d (get_labels d)))
      = map (\<lambda>l. select (map (\<lambda>c. c = l) ?ks) (df_index d)) (unique ?ks)"
    unfolding get_subsets_def iloc_rows_def mask by (simp add: comp_def)
  then have "mset (concat (map df_index (fst (get_subsets d (get_labels d)))))
      = mset (select (map (\<lambda>c. c \<in> set (unique ?ks)) ?ks) (df_index d))"
    using mset_select_partition [OF len distinct_unique, of ?ks] by simp
  also have "select (map (\<lambda>c. c \<in> set (unique ?ks)) ?ks) (df_index d) = df_index d"
    by (intro select_all len) simp
  finally show "mset (concat (map df_index (fst (get_subsets d (get_labels d)))))
      = mset (df_index d)" .
  show "\<forall>s \<in> set (fst (get_subsets d (get_labels d))). subseq (df_index s) (df_index d)"
    by (auto simp: get_subsets_def iloc_rows_def subseq_select)
  show "snd (get_subsets d (get_labels d)) = rev (remdups (rev (map snd (get_labels d))))"
    by (simp add: get_subsets_def unique_first_occurrence)
qed


lemma unique_replicate: "0 < n \<Longrightarrow> unique (replicate n x) = [x]"
  by (cases n) simp_all

text \<open>
  A table with rows and no label column is its own single group, labelled \<^verbatim>\<open>"0"\<close>.
\<close>

lemma no_label_single_group:
  assumes wf: "wf_df d" and rows: "df_index d \<noteq> []"
    and nolabel: "map_of (df_columns d) ''label'' = None"
  shows "get_subsets d (get_labels d) = ([d], [StrV ''0''])"
proof -
  let ?n = "length (df_index d)"
  have lab: "map snd (get_labels d) = replicate ?n (StrV ''0'')"
    by (simp add: get_labels_def nolabel len_df_def comp_def map_replicate_const)
  have u: "unique (map snd (get_labels d)) = [StrV ''0'']"
    using rows by (simp add: lab unique_replicate)
  have m: "map (\<lambda>(i, c). cell_eq c (StrV ''0'')) (get_labels d) = map (\<lambda>c. True) (df_index d)"
    by (intro nth_equalityI) (simp_all add: get_labels_def nolabel len_df_def cell_eq_def)
  have sel: "select (map (\<lambda>c. True) (df_index d)) vs = vs" if "length vs = ?n" for vs :: "'a list"
    using select_all [of "df_index d" vs "\<lambda>c. True"] that by simp
  have "map (\<lambda>(c, vs). (c, select (map (\<lambda>c. True) (df_index d)) vs)) (df_columns d) = df_columns d"
    using wf by (intro map_idI) (auto simp: wf_df_def list_all_iff sel)
  then have "iloc_rows d (map (\<lambda>c. True) (df_index d)) = d"
    by (simp add: iloc_rows_def sel)
  then show ?thesis
    by (simp add: get_subsets_def u m)
qed

end

